theory Spec2Isabelle
  imports Main "HOL-Library.Word"
begin

unbundle bit_operations_syntax

section \<open>Data model of dns.py\<close>

text \<open>
  Python \<open>bytes\<close> are lists of 8-bit words. A Python \<open>str\<close> is held as the list of the
  bytes of its UTF-8 form, one \<open>char\<close> each: \<open>encode("ascii")\<close> succeeds exactly when every
  char is below 128, \<open>decode("utf-8")\<close> succeeds exactly on well-formed UTF-8, and the
  strings the program builds itself (decimal numbers, dots, reprs) are ASCII.
\<close>

type_synonym byte = "8 word"
type_synonym bytes = "byte list"

text \<open>The exceptions the program can raise, by Python class.\<close>

datatype error =
    IndexError
  | StructError
  | ValueError
  | UnicodeEncodeError
  | UnicodeDecodeError
  | AttributeError
  | OSError
  | SomethingWentWrong

text \<open>
  The header fields and the record fields are Python ints that come from
  \<open>struct.unpack\<close> or \<open>random.randint(0, 65535)\<close>, so they are never negative.
  Field names that clash with HOL names carry a prime, those of \<open>DNSQuestion\<close> a \<open>q\<close>.
  The \<open>data\<close> of a record is \<open>bytes\<close> or, for an A record, a \<open>str\<close>.
\<close>

record DNSHeader =
  id' :: nat
  flags :: nat
  num_questions :: nat
  num_answers :: nat
  num_authorities :: nat
  num_additionals :: nat

record DNSQuestion =
  qname :: bytes
  qtype :: nat
  qclass :: nat

datatype payload = Bytes bytes | Str string

record DNSRecord =
  name :: bytes
  type' :: nat
  class' :: nat
  ttl :: nat
  data :: payload

record DNSPacket =
  header :: DNSHeader
  questions :: "DNSQuestion list"
  answers :: "DNSRecord list"
  authorities :: "DNSRecord list"
  additionals :: "DNSRecord list"

definition TYPE_A :: nat where "TYPE_A = 1"
definition TYPE_TXT :: nat where "TYPE_TXT = 16"
definition TYPE_NS :: nat where "TYPE_NS = 2"
definition CLASS_IN :: nat where "CLASS_IN = 1"
definition DNS_PORT :: nat where "DNS_PORT = 53"

section \<open>Byte strings\<close>

text \<open>\<open>sep.join(parts)\<close>.\<close>

fun join :: "'a list \<Rightarrow> 'a list list \<Rightarrow> 'a list" where
  "join sep [] = []"
| "join sep [p] = p"
| "join sep (p # q # ps) = p @ sep @ join sep (q # ps)"

text \<open>\<open>s.split(sep)\<close> for a one-element separator: the result is never empty.\<close>

fun split :: "'a \<Rightarrow> 'a list \<Rightarrow> 'a list list" where
  "split sep [] = [[]]"
| "split sep (x # xs) =
     (if x = sep then [] # split sep xs
      else (case split sep xs of
              [] \<Rightarrow> [[x]]
            | p # ps \<Rightarrow> (x # p) # ps))"

definition dot :: byte where "dot = 0x2E"

text \<open>\<open>s.encode("ascii")\<close>: UnicodeEncodeError on a character outside ASCII.\<close>

definition encode_ascii :: "string \<Rightarrow> error + bytes" where
  "encode_ascii s =
     (if \<forall>c \<in> set s. (of_char c :: nat) < 128 then Inr (map of_char s)
      else Inl UnicodeEncodeError)"

section \<open>The reader\<close>

text \<open>
  \<open>io.BytesIO(data)\<close> is the immutable buffer \<open>buf\<close> and a cursor \<open>pos\<close>; every function
  that takes the reader takes both and returns the new cursor. \<open>read(n)\<close> returns at
  most \<open>n\<close> bytes, fewer at the end of the buffer, none when the cursor is at or past the
  end (after a \<open>seek\<close> beyond it), and advances the cursor by what it returned.
\<close>

definition read :: "nat \<Rightarrow> bytes \<Rightarrow> nat \<Rightarrow> bytes \<times> nat" where
  "read n buf pos = (let chunk = take n (drop pos buf) in (chunk, pos + length chunk))"

section \<open>Names\<close>

text \<open>
  \<open>encode_dns_name\<close>: the loop over the parts with its accumulator \<open>encoded\<close>.
  \<open>bytes([len(part)])\<close> raises ValueError when the length is above 255.
\<close>

fun encode_parts :: "bytes \<Rightarrow> bytes list \<Rightarrow> error + bytes" where
  "encode_parts encoded [] = Inr encoded"
| "encode_parts encoded (part # rest) =
     (if length part > 255 then Inl ValueError
      else encode_parts (encoded @ [of_nat (length part)] @ part) rest)"

definition encode_dns_name :: "string \<Rightarrow> error + bytes" where
  "encode_dns_name domain_name =
     (case encode_ascii domain_name of
        Inl e \<Rightarrow> Inl e
      | Inr raw \<Rightarrow>
          (case encode_parts [] (split dot raw) of
             Inl e \<Rightarrow> Inl e
           | Inr encoded \<Rightarrow> Inr (encoded @ [0])))"

text \<open>
  \<open>decode_name_simple\<close>: \<open>reader.read(1)[0]\<close> raises IndexError at the end of the buffer;
  a label cut short by the end of the buffer is taken as it is.
\<close>

function decode_name_simple_loop :: "bytes \<Rightarrow> nat \<Rightarrow> bytes list \<Rightarrow> error + (bytes \<times> nat)" where
  "decode_name_simple_loop buf pos parts =
     (case read 1 buf pos of
        ([], _) \<Rightarrow> Inl IndexError
      | (len # _, pos1) \<Rightarrow>
          if len = 0 then Inr (join [dot] parts, pos1)
          else (case read (unat len) buf pos1 of
                  (part, pos2) \<Rightarrow> decode_name_simple_loop buf pos2 (parts @ [part])))"
  by pat_completeness auto
termination
proof (relation "measure (\<lambda>(buf, pos, parts). length buf - pos)")
  show "wf (measure (\<lambda>(buf, pos, parts). length buf - pos))" by simp
next
  fix buf :: bytes and pos :: nat and parts :: "bytes list"
    and x :: bytes and pos1 len xs y part pos2
  assume "(x, pos1) = read 1 buf pos" "x = len # xs" "(part, pos2) = read (unat len) buf pos1"
  then have "drop pos buf \<noteq> []" "pos2 = pos1 + length part" "pos1 = pos + length x"
    by (auto simp: read_def Let_def)
  with \<open>x = len # xs\<close> have "pos < length buf" "pos < pos2"
    by simp_all
  then show "((buf, pos2, parts @ [part]), (buf, pos, parts))
      \<in> measure (\<lambda>(buf, pos, parts). length buf - pos)"
    by simp
qed

definition decode_name_simple :: "bytes \<Rightarrow> nat \<Rightarrow> error + (bytes \<times> nat)" where
  "decode_name_simple buf pos = decode_name_simple_loop buf pos []"

text \<open>
  \<open>decode_name\<close> and \<open>decode_compressed_name\<close> call each other with no bound on the number
  of pointers followed. \<open>hops\<close> is the number of pointers the model may still follow:
  the result is \<open>None\<close> when that number does not suffice, \<open>Some (Inl e)\<close> when the code
  raises \<open>e\<close>, and \<open>Some (Inr (nm, pos))\<close> when it returns \<open>nm\<close> with the cursor at \<open>pos\<close>.
  The test \<open>length & 0b1100_0000\<close> is true when either of the two top bits is set.
  \<open>struct.unpack("!H", ...)\<close> raises struct.error when the second pointer byte is missing.
  \<open>seek\<close> accepts any offset.
\<close>

function decode_name_loop :: "nat \<Rightarrow> bytes \<Rightarrow> nat \<Rightarrow> bytes list \<Rightarrow> (error + (bytes \<times> nat)) option"
  and decode_compressed_name :: "nat \<Rightarrow> byte \<Rightarrow> bytes \<Rightarrow> nat \<Rightarrow> (error + (bytes \<times> nat)) option"
where
  "decode_name_loop hops buf pos parts =
     (case read 1 buf pos of
        ([], _) \<Rightarrow> Some (Inl IndexError)
      | (len # _, pos1) \<Rightarrow>
          if len = 0 then Some (Inr (join [dot] parts, pos1))
          else if len AND 0xC0 \<noteq> 0 then
            (case decode_compressed_name hops len buf pos1 of
               None \<Rightarrow> None
             | Some (Inl e) \<Rightarrow> Some (Inl e)
             | Some (Inr (nm, pos2)) \<Rightarrow> Some (Inr (join [dot] (parts @ [nm]), pos2)))
          else (case read (unat len) buf pos1 of
                  (part, pos2) \<Rightarrow> decode_name_loop hops buf pos2 (parts @ [part])))"
| "decode_compressed_name hops len buf pos =
     (case read 1 buf pos of
        ([], _) \<Rightarrow> Some (Inl StructError)
      | (low # _, current_pos) \<Rightarrow>
          (let pointer = unat (len AND 0x3F) * 256 + unat low in
           case hops of
             0 \<Rightarrow> None
           | Suc h \<Rightarrow>
               (case decode_name_loop h buf pointer [] of
                  None \<Rightarrow> None
                | Some (Inl e) \<Rightarrow> Some (Inl e)
                | Some (Inr (result, _)) \<Rightarrow> Some (Inr (result, current_pos)))))"
  by pat_completeness auto
termination
proof (relation "inv_image (less_than <*lex*> less_than <*lex*> less_than)
    (\<lambda>x. case x of
       Inl (hops, buf, pos, parts) \<Rightarrow> (hops, Suc 0, length buf - pos)
     | Inr (hops, len, buf, pos) \<Rightarrow> (hops, 0, 0))", goal_cases)
  case 1
  show ?case by (intro wf_inv_image wf_lex_prod wf_less_than)
next
  case 2
  show ?case by simp
next
  case (3 hops buf pos parts x pos1 len xs part pos2)
  then have "drop pos buf \<noteq> []" "pos2 = pos1 + length part" "pos1 = pos + length x"
    by (auto simp: read_def Let_def)
  with \<open>x = len # xs\<close> have "pos < length buf" "pos < pos2"
    by simp_all
  then show ?case by simp
next
  case 4
  then show ?case by simp
qed

definition decode_name :: "nat \<Rightarrow> bytes \<Rightarrow> nat \<Rightarrow> (error + (bytes \<times> nat)) option" where
  "decode_name hops buf pos = decode_name_loop hops buf pos []"

section \<open>Fixed-width integers\<close>

text \<open>
  \<open>struct.pack("!H...", ...)\<close> raises struct.error on a value outside \<open>0..65535\<close>;
  \<open>struct.unpack\<close> reads big-endian, after the caller has checked the length.
\<close>

definition pack_H :: "nat list \<Rightarrow> error + bytes" where
  "pack_H vs =
     (if \<forall>v \<in> set vs. v \<le> 65535
      then Inr (concat (map (\<lambda>v. [of_nat (v div 256), of_nat (v mod 256)]) vs))
      else Inl StructError)"

definition unpack_be :: "bytes \<Rightarrow> nat" where
  "unpack_be bs = foldl (\<lambda>acc b. acc * 256 + unat b) 0 bs"

section \<open>Queries\<close>

definition header_to_bytes :: "DNSHeader \<Rightarrow> error + bytes" where
  "header_to_bytes h =
     pack_H [id' h, flags h, num_questions h, num_answers h, num_authorities h, num_additionals h]"

definition question_to_bytes :: "DNSQuestion \<Rightarrow> error + bytes" where
  "question_to_bytes question =
     (case pack_H [qtype question, qclass question] of
        Inl e \<Rightarrow> Inl e
      | Inr packed \<Rightarrow> Inr (qname question @ packed))"

text \<open>
  \<open>random.randint(0, 65535)\<close> draws from the process-wide generator, which the module
  seeds with \<open>random.seed(1)\<close> when it is imported. The generator is a parameter:
  \<open>randint\<close> maps its state to the number drawn and the next state, and \<open>seed\<close> maps
  the seed to the state it sets. The name is encoded before the id is drawn, so a name
  that cannot be encoded leaves the generator as it was.
\<close>

definition seeded :: "(int \<Rightarrow> 'g) \<Rightarrow> 'g" where
  "seeded seed = seed 1"

definition build_query ::
  "('g \<Rightarrow> 16 word \<times> 'g) \<Rightarrow> 'g \<Rightarrow> string \<Rightarrow> nat \<Rightarrow> error + (bytes \<times> 'g)" where
  "build_query randint g domain_name record_type =
     (case encode_dns_name domain_name of
        Inl e \<Rightarrow> Inl e
      | Inr encoded_name \<Rightarrow>
          (case randint g of
             (i, g') \<Rightarrow>
               (let h = \<lparr>id' = unat i, flags = 0, num_questions = 1, num_answers = 0,
                          num_authorities = 0, num_additionals = 0\<rparr>;
                    question = \<lparr>qname = encoded_name, qtype = record_type, qclass = CLASS_IN\<rparr>
                in case header_to_bytes h of
                     Inl e \<Rightarrow> Inl e
                   | Inr hb \<Rightarrow>
                       (case question_to_bytes question of
                          Inl e \<Rightarrow> Inl e
                        | Inr qb \<Rightarrow> Inr (hb @ qb, g')))))"

section \<open>Responses\<close>

text \<open>\<open>str(x)\<close> of a non-negative int, and \<open>ip_to_string\<close>.\<close>

fun str_nat :: "nat \<Rightarrow> string" where
  "str_nat n =
     (if n < 10 then [char_of (48 + n)]
      else str_nat (n div 10) @ [char_of (48 + n mod 10)])"

definition ip_to_string :: "bytes \<Rightarrow> string" where
  "ip_to_string ip = join ''.'' (map (\<lambda>x. str_nat (unat x)) ip)"

definition parse_header :: "bytes \<Rightarrow> nat \<Rightarrow> error + (DNSHeader \<times> nat)" where
  "parse_header buf pos =
     (case read 12 buf pos of
        (d, pos1) \<Rightarrow>
          if length d \<noteq> 12 then Inl StructError
          else Inr (\<lparr>id' = unpack_be (take 2 d),
                     flags = unpack_be (take 2 (drop 2 d)),
                     num_questions = unpack_be (take 2 (drop 4 d)),
                     num_answers = unpack_be (take 2 (drop 6 d)),
                     num_authorities = unpack_be (take 2 (drop 8 d)),
                     num_additionals = unpack_be (take 2 (drop 10 d))\<rparr>, pos1))"

definition parse_question :: "bytes \<Rightarrow> nat \<Rightarrow> error + (DNSQuestion \<times> nat)" where
  "parse_question buf pos =
     (case decode_name_simple buf pos of
        Inl e \<Rightarrow> Inl e
      | Inr (nm, pos1) \<Rightarrow>
          (case read 4 buf pos1 of
             (d, pos2) \<Rightarrow>
               if length d \<noteq> 4 then Inl StructError
               else Inr (\<lparr>qname = nm, qtype = unpack_be (take 2 d),
                          qclass = unpack_be (take 2 (drop 2 d))\<rparr>, pos2)))"

text \<open>
  \<open>parse_record\<close>: the ten bytes after the name are type, class, TTL and data length.
  For an A record and for any other type but NS the data is \<open>reader.read(data_len)\<close>,
  whatever the length and however few bytes the buffer still holds.
\<close>

definition parse_record :: "nat \<Rightarrow> bytes \<Rightarrow> nat \<Rightarrow> (error + (DNSRecord \<times> nat)) option" where
  "parse_record hops buf pos =
     (case decode_name hops buf pos of
        None \<Rightarrow> None
      | Some (Inl e) \<Rightarrow> Some (Inl e)
      | Some (Inr (nm, pos1)) \<Rightarrow>
          (case read 10 buf pos1 of
             (d, pos2) \<Rightarrow>
               if length d \<noteq> 10 then Some (Inl StructError)
               else
                 (let ty = unpack_be (take 2 d);
                      cl = unpack_be (take 2 (drop 2 d));
                      tl = unpack_be (take 4 (drop 4 d));
                      data_len = unpack_be (take 2 (drop 8 d))
                  in if ty = TYPE_NS then
                       (case decode_name hops buf pos2 of
                          None \<Rightarrow> None
                        | Some (Inl e) \<Rightarrow> Some (Inl e)
                        | Some (Inr (ns, pos3)) \<Rightarrow>
                            Some (Inr (\<lparr>name = nm, type' = ty, class' = cl, ttl = tl,
                                        data = Bytes ns\<rparr>, pos3)))
                     else if ty = TYPE_A then
                       (case read data_len buf pos2 of
                          (ip, pos3) \<Rightarrow>
                            Some (Inr (\<lparr>name = nm, type' = ty, class' = cl, ttl = tl,
                                        data = Str (ip_to_string ip)\<rparr>, pos3)))
                     else
                       (case read data_len buf pos2 of
                          (raw, pos3) \<Rightarrow>
                            Some (Inr (\<lparr>name = nm, type' = ty, class' = cl, ttl = tl,
                                        data = Bytes raw\<rparr>, pos3))))))"

text \<open>The list comprehensions \<open>[parse_...(reader) for _ in range(n)]\<close>.\<close>

fun parse_questions :: "bytes \<Rightarrow> nat \<Rightarrow> nat \<Rightarrow> error + (DNSQuestion list \<times> nat)" where
  "parse_questions buf pos 0 = Inr ([], pos)"
| "parse_questions buf pos (Suc n) =
     (case parse_question buf pos of
        Inl e \<Rightarrow> Inl e
      | Inr (q, pos1) \<Rightarrow>
          (case parse_questions buf pos1 n of
             Inl e \<Rightarrow> Inl e
           | Inr (qs, pos2) \<Rightarrow> Inr (q # qs, pos2)))"

fun parse_records :: "nat \<Rightarrow> bytes \<Rightarrow> nat \<Rightarrow> nat \<Rightarrow> (error + (DNSRecord list \<times> nat)) option" where
  "parse_records hops buf pos 0 = Some (Inr ([], pos))"
| "parse_records hops buf pos (Suc n) =
     (case parse_record hops buf pos of
        None \<Rightarrow> None
      | Some (Inl e) \<Rightarrow> Some (Inl e)
      | Some (Inr (r, pos1)) \<Rightarrow>
          (case parse_records hops buf pos1 n of
             None \<Rightarrow> None
           | Some (Inl e) \<Rightarrow> Some (Inl e)
           | Some (Inr (rs, pos2)) \<Rightarrow> Some (Inr (r # rs, pos2))))"

definition parse_dns_packet :: "nat \<Rightarrow> bytes \<Rightarrow> (error + DNSPacket) option" where
  "parse_dns_packet hops buf =
     (case parse_header buf 0 of
        Inl e \<Rightarrow> Some (Inl e)
      | Inr (h, pos1) \<Rightarrow>
          (case parse_questions buf pos1 (num_questions h) of
             Inl e \<Rightarrow> Some (Inl e)
           | Inr (qs, pos2) \<Rightarrow>
               (case parse_records hops buf pos2 (num_answers h) of
                  None \<Rightarrow> None
                | Some (Inl e) \<Rightarrow> Some (Inl e)
                | Some (Inr (ans, pos3)) \<Rightarrow>
                    (case parse_records hops buf pos3 (num_authorities h) of
                       None \<Rightarrow> None
                     | Some (Inl e) \<Rightarrow> Some (Inl e)
                     | Some (Inr (auths, pos4)) \<Rightarrow>
                         (case parse_records hops buf pos4 (num_additionals h) of
                            None \<Rightarrow> None
                          | Some (Inl e) \<Rightarrow> Some (Inl e)
                          | Some (Inr (adds, pos5)) \<Rightarrow>
                              Some (Inr \<lparr>header = h, questions = qs, answers = ans,
                                         authorities = auths, additionals = adds\<rparr>))))))"

section \<open>Sending a query\<close>

text \<open>
  The socket is a parameter: \<open>udp\<close> maps the state of the network, the address, the port
  and the datagram sent to an OS error or to the datagram received and the next state.
  \<open>recvfrom(1024)\<close> keeps the first 1024 bytes of it. The world of a run is the state of
  the random generator and the state of the network.
\<close>

record ('g, 'n) world =
  rng :: 'g
  net :: 'n

definition send_query ::
  "('g \<Rightarrow> 16 word \<times> 'g) \<Rightarrow> ('n \<Rightarrow> string \<Rightarrow> nat \<Rightarrow> bytes \<Rightarrow> error + (bytes \<times> 'n)) \<Rightarrow> nat \<Rightarrow>
   ('g, 'n) world \<Rightarrow> string \<Rightarrow> string \<Rightarrow> nat \<Rightarrow> (error + (DNSPacket \<times> ('g, 'n) world)) option" where
  "send_query randint udp hops w ip_address domain_name record_type =
     (case build_query randint (rng w) domain_name record_type of
        Inl e \<Rightarrow> Some (Inl e)
      | Inr (query, g') \<Rightarrow>
          (case udp (net w) ip_address DNS_PORT query of
             Inl e \<Rightarrow> Some (Inl e)
           | Inr (received, n') \<Rightarrow>
               (case parse_dns_packet hops (take 1024 received) of
                  None \<Rightarrow> None
                | Some (Inl e) \<Rightarrow> Some (Inl e)
                | Some (Inr packet) \<Rightarrow> Some (Inr (packet, \<lparr>rng = g', net = n'\<rparr>)))))"

section \<open>The resolver\<close>

text \<open>
  \<open>str(a.data)\<close>: a \<open>str\<close> is returned as it is, \<open>bytes\<close> give their repr
  (\<open>b'...'\<close>, with double quotes when the bytes hold a single quote and no double
  quote, and backslash escapes), which is never empty.
\<close>

definition hex_digit :: "nat \<Rightarrow> char" where
  "hex_digit n = (if n < 10 then char_of (48 + n) else char_of (87 + n))"

definition repr_byte :: "byte \<Rightarrow> byte \<Rightarrow> string" where
  "repr_byte quote c =
     (if c = quote \<or> c = 0x5C then [CHR 0x5C, char_of (unat c)]
      else if c = 0x09 then [CHR 0x5C, CHR ''t'']
      else if c = 0x0A then [CHR 0x5C, CHR ''n'']
      else if c = 0x0D then [CHR 0x5C, CHR ''r'']
      else if c < 0x20 \<or> 0x7F \<le> c
        then [CHR 0x5C, CHR ''x'', hex_digit (unat c div 16), hex_digit (unat c mod 16)]
      else [char_of (unat c)])"

definition bytes_repr :: "bytes \<Rightarrow> string" where
  "bytes_repr bs =
     (let quote = (if 0x27 \<in> set bs \<and> 0x22 \<notin> set bs then 0x22 else 0x27)
      in [CHR ''b'', char_of (unat quote)] @ concat (map (repr_byte quote) bs) @ [char_of (unat quote)])"

fun str :: "payload \<Rightarrow> string" where
  "str (Str s) = s"
| "str (Bytes bs) = bytes_repr bs"

text \<open>
  \<open>bytes.decode("utf-8")\<close>: UnicodeDecodeError unless the bytes are well-formed UTF-8
  (no overlong form, no surrogate, nothing above U+10FFFF). A \<open>str\<close> has no
  \<open>decode\<close>: AttributeError.
\<close>

definition continuation :: "byte \<Rightarrow> bool" where
  "continuation b = (0x80 \<le> b \<and> b \<le> 0xBF)"

fun valid_utf8 :: "bytes \<Rightarrow> bool" where
  "valid_utf8 [] = True"
| "valid_utf8 (b0 # bs) =
     (if b0 < 0x80 then valid_utf8 bs
      else if 0xC2 \<le> b0 \<and> b0 \<le> 0xDF then
        (case bs of
           b1 # r \<Rightarrow> continuation b1 \<and> valid_utf8 r
         | _ \<Rightarrow> False)
      else if 0xE0 \<le> b0 \<and> b0 \<le> 0xEF then
        (case bs of
           b1 # b2 # r \<Rightarrow>
             (if b0 = 0xE0 then 0xA0 \<le> b1 \<and> b1 \<le> 0xBF
              else if b0 = 0xED then 0x80 \<le> b1 \<and> b1 \<le> 0x9F
              else continuation b1)
             \<and> continuation b2 \<and> valid_utf8 r
         | _ \<Rightarrow> False)
      else if 0xF0 \<le> b0 \<and> b0 \<le> 0xF4 then
        (case bs of
           b1 # b2 # b3 # r \<Rightarrow>
             (if b0 = 0xF0 then 0x90 \<le> b1 \<and> b1 \<le> 0xBF
              else if b0 = 0xF4 then 0x80 \<le> b1 \<and> b1 \<le> 0x8F
              else continuation b1)
             \<and> continuation b2 \<and> continuation b3 \<and> valid_utf8 r
         | _ \<Rightarrow> False)
      else False)"

fun decode_utf8 :: "payload \<Rightarrow> error + string" where
  "decode_utf8 (Str s) = Inl AttributeError"
| "decode_utf8 (Bytes bs) =
     (if valid_utf8 bs then Inr (map (\<lambda>b. char_of (unat b)) bs) else Inl UnicodeDecodeError)"

text \<open>The three searches: each returns at the first record of the type it looks for.\<close>

fun first_A :: "DNSRecord list \<Rightarrow> string option" where
  "first_A [] = None"
| "first_A (a # rest) = (if type' a = TYPE_A then Some (str (data a)) else first_A rest)"

definition get_answer :: "DNSPacket \<Rightarrow> string option" where
  "get_answer packet = first_A (answers packet)"

definition get_nameserver_ip :: "DNSPacket \<Rightarrow> string option" where
  "get_nameserver_ip packet = first_A (additionals packet)"

fun first_NS :: "DNSRecord list \<Rightarrow> error + string option" where
  "first_NS [] = Inr None"
| "first_NS (a # rest) =
     (if type' a = TYPE_NS then
        (case decode_utf8 (data a) of
           Inl e \<Rightarrow> Inl e
         | Inr s \<Rightarrow> Inr (Some s))
      else first_NS rest)"

definition get_nameserver :: "DNSPacket \<Rightarrow> error + string option" where
  "get_nameserver packet = first_NS (authorities packet)"

text \<open>
  \<open>resolve\<close>. The walrus tests \<open>if ip := get_answer(response)\<close> take the branch when
  the value is neither \<open>None\<close> nor the empty string. The loop has no bound, and neither
  has the recursion on the name of a nameserver: \<open>fuel\<close> is the number of queries the
  model may still send along one path of calls, and the result is \<open>None\<close> when it does
  not suffice. \<open>resolve_loop\<close> is the \<open>while True\<close> loop with its variable
  \<open>nameserver\<close>.
\<close>

fun truthy :: "string option \<Rightarrow> bool" where
  "truthy None = False"
| "truthy (Some s) = (s \<noteq> [])"

fun resolve ::
    "('g \<Rightarrow> 16 word \<times> 'g) \<Rightarrow> ('n \<Rightarrow> string \<Rightarrow> nat \<Rightarrow> bytes \<Rightarrow> error + (bytes \<times> 'n)) \<Rightarrow> nat \<Rightarrow> nat \<Rightarrow>
     ('g, 'n) world \<Rightarrow> string \<Rightarrow> nat \<Rightarrow> (error + (string \<times> ('g, 'n) world)) option"
  and resolve_loop ::
    "('g \<Rightarrow> 16 word \<times> 'g) \<Rightarrow> ('n \<Rightarrow> string \<Rightarrow> nat \<Rightarrow> bytes \<Rightarrow> error + (bytes \<times> 'n)) \<Rightarrow> nat \<Rightarrow> nat \<Rightarrow>
     ('g, 'n) world \<Rightarrow> string \<Rightarrow> string \<Rightarrow> nat \<Rightarrow> (error + (string \<times> ('g, 'n) world)) option"
where
  "resolve randint udp hops fuel w domain_name record_type =
     resolve_loop randint udp hops fuel w ''198.41.0.4'' domain_name record_type"
| "resolve_loop randint udp hops 0 w nameserver domain_name record_type = None"
| "resolve_loop randint udp hops (Suc fuel) w nameserver domain_name record_type =
     (case send_query randint udp hops w nameserver domain_name record_type of
        None \<Rightarrow> None
      | Some (Inl e) \<Rightarrow> Some (Inl e)
      | Some (Inr (response, w1)) \<Rightarrow>
          (let ip = get_answer response in
           if truthy ip then Some (Inr (the ip, w1))
           else
             (let new_nameserver = get_nameserver_ip response in
              if truthy new_nameserver then
                resolve_loop randint udp hops fuel w1 (the new_nameserver) domain_name record_type
              else
                (case get_nameserver response of
                   Inl e \<Rightarrow> Some (Inl e)
                 | Inr ns_domain \<Rightarrow>
                     if truthy ns_domain then
                       (case resolve randint udp hops fuel w1 (the ns_domain) TYPE_A of
                          None \<Rightarrow> None
                        | Some (Inl e) \<Rightarrow> Some (Inl e)
                        | Some (Inr (ns_ip, w2)) \<Rightarrow>
                            resolve_loop randint udp hops fuel w2 ns_ip domain_name record_type)
                     else Some (Inl SomethingWentWrong)))))"

section \<open>Runs and stand-ins for the environment\<close>

text \<open>
  The calls of \<open>build_query\<close> in one run of the program, in the order they are made,
  each with the generator as the call before left it. Nothing in the program catches
  an exception, so the first call that raises ends the run.
\<close>

fun build_queries ::
  "('g \<Rightarrow> 16 word \<times> 'g) \<Rightarrow> 'g \<Rightarrow> (string \<times> nat) list \<Rightarrow> error + (bytes list \<times> 'g)" where
  "build_queries randint g [] = Inr ([], g)"
| "build_queries randint g ((domain_name, record_type) # calls) =
     (case build_query randint g domain_name record_type of
        Inl e \<Rightarrow> Inl e
      | Inr (query, g') \<Rightarrow>
          (case build_queries randint g' calls of
             Inl e \<Rightarrow> Inl e
           | Inr (queries, g'') \<Rightarrow> Inr (query # queries, g'')))"

text \<open>The \<open>k\<close>-th number drawn from the generator, counting from 0, starting in state \<open>g\<close>.\<close>

fun nth_draw :: "('g \<Rightarrow> 16 word \<times> 'g) \<Rightarrow> 'g \<Rightarrow> nat \<Rightarrow> 16 word" where
  "nth_draw randint g 0 = fst (randint g)"
| "nth_draw randint g (Suc k) = nth_draw randint (snd (randint g)) k"

text \<open>
  To run the model on a concrete input the two parameters need values: a generator
  whose state is a counter and that draws the counter, and a network that answers every
  datagram with the same response. The responses are written out byte by byte: twelve
  header bytes, then the records, each with the root name (a single zero byte).
\<close>

definition counting_randint :: "nat \<Rightarrow> 16 word \<times> nat" where
  "counting_randint g = (of_nat g, Suc g)"

definition answering_udp :: "bytes \<Rightarrow> unit \<Rightarrow> string \<Rightarrow> nat \<Rightarrow> bytes \<Rightarrow> error + (bytes \<times> unit)" where
  "answering_udp received n ip_address port query = Inr (received, n)"

text \<open>One answer, of type A, with the address 1.2.3.4.\<close>

definition response_A_answer :: bytes where
  "response_A_answer =
     [0, 0, 0x80, 0, 0, 0, 0, 1, 0, 0, 0, 0,
      0, 0, 1, 0, 1, 0, 0, 0, 0, 0, 4, 1, 2, 3, 4]"

text \<open>One answer, of type TXT, with the text \<open>x\<close>.\<close>

definition response_TXT_answer :: bytes where
  "response_TXT_answer =
     [0, 0, 0x80, 0, 0, 0, 0, 1, 0, 0, 0, 0,
      0, 0, 16, 0, 1, 0, 0, 0, 0, 0, 2, 1, 0x78]"

text \<open>No answer, and one additional record of type A with the address 192.5.6.30.\<close>

definition response_glue :: bytes where
  "response_glue =
     [0, 0, 0x80, 0, 0, 0, 0, 0, 0, 0, 0, 1,
      0, 0, 1, 0, 1, 0, 0, 0, 0, 0, 4, 192, 5, 6, 30]"

text \<open>
  One answer of type A with the address 1.2.3.4 and one additional record of type A
  with the address 5.6.7.8.
\<close>

definition response_A_answer_and_glue :: bytes where
  "response_A_answer_and_glue =
     [0, 0, 0x80, 0, 0, 0, 0, 1, 0, 0, 0, 1,
      0, 0, 1, 0, 1, 0, 0, 0, 0, 0, 4, 1, 2, 3, 4,
      0, 0, 1, 0, 1, 0, 0, 0, 0, 0, 4, 5, 6, 7, 8]"

text \<open>
  A network in which the root server \<open>198.41.0.4\<close> answers with the glue referral and
  every other server with the A answer.
\<close>

definition delegating_udp :: "unit \<Rightarrow> string \<Rightarrow> nat \<Rightarrow> bytes \<Rightarrow> error + (bytes \<times> unit)" where
  "delegating_udp n ip_address port query =
     (if ip_address = ''198.41.0.4'' then Inr (response_glue, n) else Inr (response_A_answer, n))"

section \<open>Reading from the buffer\<close>

declare decode_name_loop.simps [simp del] decode_compressed_name.simps [simp del]
  decode_name_simple_loop.simps [simp del]

lemma read_one: "pos < length buf \<Longrightarrow> read (Suc 0) buf pos = ([buf ! pos], Suc pos)"
  by (simp add: read_def Let_def take_Suc_conv_app_nth hd_drop_conv_nth take_Suc)

lemma read_exact: "read (length xs) (pre @ xs @ ys) (length pre) = (xs, length pre + length xs)"
  by (simp add: read_def)

text \<open>The pointer test of \<open>decode_name\<close> holds for every length byte from \<open>0x40\<close> on.\<close>

lemma pointer_test_iff: "(len :: byte) AND 0xC0 \<noteq> 0 \<longleftrightarrow> 0x40 \<le> len"
proof -
  have "(0xC0 :: byte) = NOT (mask 6)"
    by (simp add: mask_eq_exp_minus_1)
  then have "len AND 0xC0 = 0 \<longleftrightarrow> len AND mask 6 = len"
    by (auto simp: bit_eq_iff bit_simps)
  also have "\<dots> \<longleftrightarrow> len < 2 ^ 6"
    by (rule mask_eq_iff_w2p) (simp add: word_size)
  finally show ?thesis
    by (simp add: not_less)
qed

section \<open>Compression pointers\<close>

lemma self_pointer_loops:
  assumes "Suc p < length buf"
    and "buf ! p AND 0xC0 \<noteq> 0"
    and "unat (buf ! p AND 0x3F) * 256 + unat (buf ! Suc p) = p"
  shows "decode_name_loop hops buf p parts = None"
proof (induction hops arbitrary: parts)
  case 0
  from assms have "buf ! p \<noteq> 0" by auto
  with assms show ?case
    by (simp add: read_one decode_name_loop.simps [of 0 buf p] decode_compressed_name.simps)
next
  case (Suc hops)
  from assms have "buf ! p \<noteq> 0" by auto
  with assms Suc show ?case
    by (simp add: read_one decode_name_loop.simps [of "Suc hops" buf p]
        decode_compressed_name.simps)
qed

text \<open>
  C1 (as the code has it). \<open>decode_name\<close> has no hop bound and no cycle check. On a buffer
  whose pointer at offset \<open>p\<close> points at \<open>p\<close> itself, it is still following the pointer
  after any number \<open>hops\<close> of hops: it returns no name and raises no error of its own
  (the type \<open>error\<close> has no MalformedMessageError; in CPython only the interpreter's
  recursion limit ends the run, with RecursionError).
\<close>

theorem decode_name_self_pointer_unbounded:
  assumes "Suc p < length buf"
    and "buf ! p AND 0xC0 \<noteq> 0"
    and "unat (buf ! p AND 0x3F) * 256 + unat (buf ! Suc p) = p"
  shows "decode_name hops buf p = None"
  unfolding decode_name_def using assms by (rule self_pointer_loops)

text \<open>C1, witness: the two-byte buffer \<open>C0 00\<close>, a pointer to offset 0, after 1000 hops.\<close>

theorem decode_name_self_pointer_unbounded_witness:
  "Suc 0 < length [0xC0, 0x00 :: byte]
   \<and> [0xC0, 0x00 :: byte] ! 0 AND 0xC0 \<noteq> 0
   \<and> decode_name 1000 [0xC0, 0x00] 0 = None"
  using decode_name_self_pointer_unbounded [of 0 "[0xC0, 0x00]" 1000] by simp

text \<open>
  C1, counterexample to the claim as stated: in the four-byte buffer \<open>C0 02 C0 00\<close> the
  pointer at 0 points at 2 and the pointer at 2 points at 0. With as many hops as the
  buffer has bytes the decoder has not stopped: it has neither returned nor failed.
\<close>

theorem decode_name_cycle_counterexample:
  "decode_name (length [0xC0, 0x02, 0xC0, 0x00 :: byte]) [0xC0, 0x02, 0xC0, 0x00] 0 = None"
  by (simp add: decode_name_def read_def decode_name_loop.simps decode_compressed_name.simps)

text \<open>
  C2 (the code at the failing input). The length byte \<open>0x40\<close> has only one of its two top
  bits set, and \<open>decode_name\<close> follows it as a pointer: with the next byte \<open>02\<close> it seeks
  to offset 2, decodes the label \<open>a\<close> there, and returns with the cursor after the two
  pointer bytes.
\<close>

theorem decode_name_follows_0x40:
  "decode_name 1 [0x40, 0x02, 0x01, 0x61, 0x00] 0 = Some (Inr ([0x61], 2))"
  by (simp add: decode_name_def read_def decode_name_loop.simps decode_compressed_name.simps)

section \<open>Encoding names\<close>

lemma join_Cons_Cons: "join sep ((x # p) # ps) = x # join sep (p # ps)"
  by (cases ps) simp_all

lemma split_not_Nil: "split sep xs \<noteq> []"
  by (induction xs) (auto split: list.splits)

lemma join_split: "join [sep] (split sep xs) = xs"
  by (induction xs) (auto simp: join_Cons_Cons split_not_Nil split: list.splits)

lemma encode_parts_ok:
  "\<forall>l \<in> set ls. length l \<le> 255 \<Longrightarrow>
   encode_parts acc ls = Inr (acc @ concat (map (\<lambda>l. of_nat (length l) # l) ls))"
  by (induction ls arbitrary: acc) auto

lemma encode_parts_too_long:
  "\<exists>l \<in> set ls. 255 < length l \<Longrightarrow> encode_parts acc ls = Inl ValueError"
  by (induction ls arbitrary: acc) auto

lemma encode_dns_name_labels:
  assumes "\<forall>c \<in> set domain_name. (of_char c :: nat) < 128"
    and "\<forall>l \<in> set (split dot (map of_char domain_name)). length l \<le> 255"
  shows "encode_dns_name domain_name =
    Inr (concat (map (\<lambda>l. of_nat (length l) # l) (split dot (map of_char domain_name))) @ [0])"
  using assms by (simp add: encode_dns_name_def encode_ascii_def encode_parts_ok)

text \<open>
  C8 (as the code has it). \<open>encode_dns_name\<close> never checks a label against 63 and has
  no EncodingError. A name with a character outside ASCII fails with UnicodeEncodeError;
  an ASCII name whose labels are all at most 255 bytes gives the length-prefixed labels
  followed by a zero byte, a label of 64 to 255 bytes with its length byte as it is; an
  ASCII name with a label above 255 bytes fails with ValueError, from \<open>bytes([len(part)])\<close>.
\<close>

theorem encode_dns_name_length_prefixed:
  "encode_dns_name domain_name =
    (if \<exists>c \<in> set domain_name. 128 \<le> (of_char c :: nat) then Inl UnicodeEncodeError
     else if \<forall>l \<in> set (split dot (map of_char domain_name)). length l \<le> 255
     then Inr (concat (map (\<lambda>l. of_nat (length l) # l)
                 (split dot (map of_char domain_name))) @ [0])
     else Inl ValueError)"
proof -
  consider (nonascii) "\<exists>c \<in> set domain_name. 128 \<le> (of_char c :: nat)"
    | (ok) "\<forall>c \<in> set domain_name. (of_char c :: nat) < 128"
        "\<forall>l \<in> set (split dot (map of_char domain_name)). length l \<le> 255"
    | (long) "\<forall>c \<in> set domain_name. (of_char c :: nat) < 128"
        "\<exists>l \<in> set (split dot (map of_char domain_name)). 255 < length l"
    by (meson not_le)
  then show ?thesis
  proof cases
    case nonascii
    then show ?thesis
      by (auto simp: encode_dns_name_def encode_ascii_def not_less)
  next
    case ok
    then show ?thesis
      by (simp add: encode_dns_name_labels not_le)
  next
    case long
    then have "\<not> (\<forall>l \<in> set (split dot (map of_char domain_name)). length l \<le> 255)"
      by (auto simp: not_le)
    with long show ?thesis
      by (simp add: encode_dns_name_def encode_ascii_def encode_parts_too_long not_le)
  qed
qed

text \<open>C8, witness: the name \<open>a.bc\<close>.\<close>

theorem encode_dns_name_length_prefixed_witness:
  "encode_dns_name ''a.bc'' = Inr [1, 0x61, 2, 0x62, 0x63, 0]"
  using encode_dns_name_length_prefixed [of "''a.bc''"] by (simp add: dot_def)

text \<open>
  C8, counterexample to the claim as stated: a name that is one label of 64 bytes is
  encoded, with the length byte \<open>0x40\<close>, and no error is raised.
\<close>

theorem encode_dns_name_long_label_counterexample:
  "encode_dns_name (replicate 64 (CHR ''a'')) = Inr (64 # replicate 64 0x61 @ [0])"
  by code_simp

section \<open>Decoding what was encoded\<close>

lemma label_length_byte:
  assumes "length l \<le> 63"
  shows "unat (of_nat (length l) :: byte) = length l"
    and "(of_nat (length l) :: byte) AND 0xC0 = 0"
proof -
  from assms show u: "unat (of_nat (length l) :: byte) = length l"
    by (simp add: unat_of_nat)
  from assms u have "(of_nat (length l) :: byte) < 0x40"
    by (simp add: word_less_nat_alt)
  with pointer_test_iff [of "of_nat (length l)"] show "(of_nat (length l) :: byte) AND 0xC0 = 0"
    by (auto simp: not_le)
qed

lemma decode_labels:
  assumes "\<forall>l \<in> set ls. 1 \<le> length l \<and> length l \<le> 63"
  shows "decode_name_loop hops
           (pre @ concat (map (\<lambda>l. of_nat (length l) # l) ls) @ 0 # post) (length pre) parts
         = Some (Inr (join [dot] (parts @ ls),
             Suc (length pre + length (concat (map (\<lambda>l. of_nat (length l) # l) ls)))))"
  using assms
proof (induction ls arbitrary: pre parts)
  case Nil
  show ?case
    by (simp add: decode_name_loop.simps [of hops "pre @ 0 # post"] read_one)
next
  case (Cons l ls)
  let ?len = "of_nat (length l) :: byte"
  let ?rest = "concat (map (\<lambda>l. of_nat (length l) # l) ls) @ 0 # post"
  let ?buf = "pre @ concat (map (\<lambda>l. of_nat (length l) # l) (l # ls)) @ 0 # post"
  from Cons.prems have len: "1 \<le> length l" "length l \<le> 63"
    by simp_all
  have u: "unat ?len = length l" and noptr: "?len AND 0xC0 = 0"
    using label_length_byte [OF len(2)] by simp_all
  from u len have nz: "?len \<noteq> 0"
    by (metis not_one_le_zero unat_0)
  have buf: "?buf = (pre @ [?len]) @ l @ ?rest"
    by simp
  have r1: "read (Suc 0) ?buf (length pre) = ([?len], Suc (length pre))"
    by (simp add: read_one)
  have r2: "read (length l) ?buf (Suc (length pre)) = (l, Suc (length pre) + length l)"
    using read_exact [of l "pre @ [?len]" ?rest] unfolding buf by simp
  have "decode_name_loop hops ?buf (length pre) parts
      = decode_name_loop hops ?buf (Suc (length pre) + length l) (parts @ [l])"
    by (subst decode_name_loop.simps)
      (simp add: r1 r2 nz noptr u del: append.simps concat.simps list.map)
  also have "?buf = (pre @ ?len # l) @ concat (map (\<lambda>l. of_nat (length l) # l) ls) @ 0 # post"
    by simp
  also have "Suc (length pre) + length l = length (pre @ ?len # l)"
    by simp
  also have "decode_name_loop hops
       ((pre @ ?len # l) @ concat (map (\<lambda>l. of_nat (length l) # l) ls) @ 0 # post)
       (length (pre @ ?len # l)) (parts @ [l])
     = Some (Inr (join [dot] ((parts @ [l]) @ ls),
         Suc (length (pre @ ?len # l) + length (concat (map (\<lambda>l. of_nat (length l) # l) ls)))))"
    using Cons.prems by (intro Cons.IH) simp
  finally show ?case
    by simp
qed

text \<open>
  C9 (as the code has it). For every ASCII name whose labels are each between 1 and 63
  bytes (no empty label: no leading, trailing or doubled dot), \<open>decode_name\<close> at the
  start of \<open>encode_dns_name(name)\<close>, anywhere in a buffer and with any number of hops
  allowed, returns the bytes of the name and leaves the cursor after the encoding.
\<close>

theorem decode_encode_roundtrip:
  assumes ascii: "\<forall>c \<in> set domain_name. (of_char c :: nat) < 128"
    and labels: "\<forall>l \<in> set (split dot (map of_char domain_name)). 1 \<le> length l \<and> length l \<le> 63"
  shows "\<exists>encoded. encode_dns_name domain_name = Inr encoded
    \<and> decode_name hops (pre @ encoded @ post) (length pre)
        = Some (Inr (map of_char domain_name, length pre + length encoded))"
proof -
  let ?ls = "split dot (map of_char domain_name) :: bytes list"
  let ?enc = "concat (map (\<lambda>l. of_nat (length l) # l) ?ls) @ [0]"
  from labels have "\<forall>l \<in> set ?ls. length l \<le> 255"
    by auto
  with ascii have enc: "encode_dns_name domain_name = Inr ?enc"
    by (rule encode_dns_name_labels)
  have "decode_name hops (pre @ ?enc @ post) (length pre)
      = Some (Inr (join [dot] ?ls, length pre + length ?enc))"
    using decode_labels [OF labels, of hops pre post "[]"]
    by (simp add: decode_name_def)
  then have "decode_name hops (pre @ ?enc @ post) (length pre)
      = Some (Inr (map of_char domain_name, length pre + length ?enc))"
    by (simp only: join_split)
  with enc show ?thesis
    by blast
qed

text \<open>C9, witness: the name \<open>a.bc\<close>, encoded between two other bytes.\<close>

theorem decode_encode_roundtrip_witness:
  "decode_name 0 ([0xAB] @ [1, 0x61, 2, 0x62, 0x63, 0] @ [0xCD]) 1
     = Some (Inr (map of_char ''a.bc'', 7))"
proof -
  have a: "\<forall>c \<in> set ''a.bc''. (of_char c :: nat) < 128"
    by simp
  have l: "\<forall>l \<in> set (split dot (map of_char ''a.bc'')). 1 \<le> length l \<and> length l \<le> 63"
    by (simp add: dot_def)
  have e: "encode_dns_name ''a.bc'' = Inr [1, 0x61, 2, 0x62, 0x63, 0]"
    by code_simp
  from decode_encode_roundtrip [OF a l, of 0 "[0xAB]" "[0xCD]"] e show ?thesis
    by simp
qed

text \<open>
  C9, counterexample to the claim as stated: the name \<open>a.\<close> has the labels \<open>a\<close> and
  the empty label, both at most 63 bytes. Its encoding is \<open>01 61 00 00\<close>, and decoding
  stops at the first zero byte with the name \<open>a\<close>.
\<close>

theorem decode_encode_trailing_dot_counterexample:
  "encode_dns_name ''a.'' = Inr [1, 0x61, 0, 0]
   \<and> decode_name 0 [1, 0x61, 0, 0] 0 = Some (Inr ([0x61], 3))
   \<and> [0x61] \<noteq> (map of_char ''a.'' :: bytes)"
  by code_simp


section \<open>The cursor after a successful read\<close>

declare str_nat.simps [simp del]









lemma read_at:
  assumes "drop pos buf = xs @ rest"
  shows "read (length xs) buf pos = (xs, pos + length xs)"
    and "drop (pos + length xs) buf = rest"
proof -
  from assms show "read (length xs) buf pos = (xs, pos + length xs)"
    by (simp add: read_def)
  have "drop (pos + length xs) buf = drop (length xs) (drop pos buf)"
    by (simp add: add.commute)
  with assms show "drop (pos + length xs) buf = rest"
    by simp
qed

section \<open>Records of type A\<close>

text \<open>
  C6 (as the code has it). For every record with declared type A, whose name decodes and
  whose ten fixed bytes are in the buffer, \<open>parse_record\<close> succeeds whatever the declared
  data length is: the data is the dotted-decimal rendering of the next \<open>data_len\<close> bytes,
  or of the bytes that remain when the buffer holds fewer. The length is never compared
  with 4 and no error is raised for it.
\<close>

theorem parse_record_A_any_length:
  assumes "decode_name hops buf pos = Some (Inr (nm, pos1))"
    and "drop pos1 buf = [0, 1, c1, c0, t3, t2, t1, t0, n1, n0] @ rest"
  shows "parse_record hops buf pos =
    Some (Inr (\<lparr>name = nm, type' = TYPE_A, class' = unpack_be [c1, c0],
                ttl = unpack_be [t3, t2, t1, t0],
                data = Str (ip_to_string (take (unpack_be [n1, n0]) rest))\<rparr>,
               pos1 + 10 + min (unpack_be [n1, n0]) (length rest)))"
proof -
  let ?fixed = "[0, 1, c1, c0, t3, t2, t1, t0, n1, n0]"
  have len: "length ?fixed = 10"
    by simp
  have r10: "read 10 buf pos1 = (?fixed, pos1 + 10)"
    using read_at(1) [OF assms(2)] unfolding len .
  have rest: "drop (pos1 + 10) buf = rest"
    using read_at(2) [OF assms(2)] unfolding len .
  have rd: "read (unpack_be [n1, n0]) buf (pos1 + 10)
      = (take (unpack_be [n1, n0]) rest, pos1 + 10 + min (unpack_be [n1, n0]) (length rest))"
    by (simp add: read_def rest min.commute)
  have ty: "unpack_be (take 2 ?fixed) = TYPE_A" "TYPE_A \<noteq> TYPE_NS"
    by (simp_all add: unpack_be_def TYPE_A_def TYPE_NS_def)
  from assms(1) r10 ty rd show ?thesis
    by (simp add: parse_record_def Let_def)
qed

text \<open>C6, witness: an A record with the four data bytes \<open>192.5.6.30\<close>.\<close>

theorem parse_record_A_any_length_witness:
  "parse_record 0 [0, 0, 1, 0, 1, 0, 0, 0, 60, 0, 4, 192, 5, 6, 30] 0 =
     Some (Inr (\<lparr>name = [], type' = 1, class' = 1, ttl = 60, data = Str ''192.5.6.30''\<rparr>, 15))"
proof -
  have n: "decode_name 0 [0, 0, 1, 0, 1, 0, 0, 0, 60, 0, 4, 192, 5, 6, 30] 0 = Some (Inr ([], 1))"
    by (simp add: decode_name_def decode_name_loop.simps read_def)
  have d: "drop 1 [0, 0, 1, 0, 1, 0, 0, 0, 60, 0, 4, 192, 5, 6, 30 :: byte]
      = [0, 1, 0, 1, 0, 0, 0, 60, 0, 4] @ [192, 5, 6, 30]"
    by simp
  have s: "ip_to_string [192, 5, 6, 30] = ''192.5.6.30''"
    by code_simp
  from parse_record_A_any_length [OF n d] s show ?thesis
    by (simp add: unpack_be_def TYPE_A_def)
qed

text \<open>
  C6, counterexample to the claim as stated: an A record that declares a data length of
  5 is decoded, to the text \<open>1.2.3.4.5\<close>.
\<close>

theorem parse_record_A_length_5_counterexample:
  "parse_record 0 [0, 0, 1, 0, 1, 0, 0, 0, 0, 0, 5, 1, 2, 3, 4, 5] 0 =
     Some (Inr (\<lparr>name = [], type' = 1, class' = 1, ttl = 0, data = Str ''1.2.3.4.5''\<rparr>, 16))"
  by code_simp


section \<open>Packets against the bytes of the buffer\<close>











section \<open>Building queries\<close>

lemma unat_16_le: "unat (i :: 16 word) \<le> 65535"
  using unsigned_less [of i, where 'a = nat] by simp

lemma header_to_bytes_query:
  "header_to_bytes \<lparr>id' = unat (i :: 16 word), flags = 0, num_questions = 1, num_answers = 0,
                     num_authorities = 0, num_additionals = 0\<rparr> =
   Inr [of_nat (unat i div 256), of_nat (unat i mod 256), 0, 0, 0, 1, 0, 0, 0, 0, 0, 0]"
  using unat_16_le [of i] by (simp add: header_to_bytes_def pack_H_def)

lemma question_to_bytes_query:
  "question_to_bytes \<lparr>qname = encoded, qtype = record_type, qclass = CLASS_IN\<rparr> =
   (if record_type \<le> 65535
    then Inr (encoded @ [of_nat (record_type div 256), of_nat (record_type mod 256), 0, 1])
    else Inl StructError)"
  by (simp add: question_to_bytes_def pack_H_def CLASS_IN_def)

lemma build_query_eq:
  "build_query randint g domain_name record_type =
    (case encode_dns_name domain_name of
       Inl e \<Rightarrow> Inl e
     | Inr encoded \<Rightarrow>
         if record_type \<le> 65535
         then Inr ([of_nat (unat (fst (randint g)) div 256),
                    of_nat (unat (fst (randint g)) mod 256),
                    0, 0, 0, 1, 0, 0, 0, 0, 0, 0]
                   @ encoded
                   @ [of_nat (record_type div 256), of_nat (record_type mod 256), 0, 1],
                   snd (randint g))
         else Inl StructError)"
proof (cases "encode_dns_name domain_name")
  case (Inl e)
  then show ?thesis
    by (simp add: build_query_def)
next
  case (Inr encoded)
  obtain i g1 where r: "randint g = (i, g1)"
    by (cases "randint g")
  show ?thesis
    unfolding build_query_def Inr r
    by (simp only: Let_def header_to_bytes_query question_to_bytes_query sum.case prod.case
        split: if_splits) simp
qed

lemma build_query_Inr_iff:
  "build_query randint g domain_name record_type = Inr (query, g') \<longleftrightarrow>
   (\<exists>encoded. encode_dns_name domain_name = Inr encoded \<and> record_type \<le> 65535
      \<and> g' = snd (randint g)
      \<and> query = [of_nat (unat (fst (randint g)) div 256), of_nat (unat (fst (randint g)) mod 256),
                  0, 0, 0, 1, 0, 0, 0, 0, 0, 0]
                 @ encoded @ [of_nat (record_type div 256), of_nat (record_type mod 256), 0, 1])"
  unfolding build_query_eq by (auto split: sum.splits)

lemma build_queries_nth:
  "build_queries randint g calls = Inr (queries, g') \<Longrightarrow> k < length calls \<Longrightarrow>
   \<exists>encoded. encode_dns_name (fst (calls ! k)) = Inr encoded
     \<and> queries ! k =
         [of_nat (unat (nth_draw randint g k) div 256),
          of_nat (unat (nth_draw randint g k) mod 256),
          0, 0, 0, 1, 0, 0, 0, 0, 0, 0]
         @ encoded @ [of_nat (snd (calls ! k) div 256), of_nat (snd (calls ! k) mod 256), 0, 1]"
proof (induction calls arbitrary: g queries k)
  case Nil
  then show ?case by simp
next
  case (Cons call calls)
  obtain domain_name record_type where call: "call = (domain_name, record_type)"
    by (cases call)
  from Cons.prems(1) call obtain query g1 rest where
    q: "build_query randint g domain_name record_type = Inr (query, g1)"
    and rest: "build_queries randint g1 calls = Inr (rest, g')"
    and queries: "queries = query # rest"
    by (auto split: sum.splits)
  from q have g1: "g1 = snd (randint g)"
    by (auto simp: build_query_Inr_iff)
  show ?case
  proof (cases k)
    case 0
    with q call queries show ?thesis
      by (auto simp: build_query_Inr_iff)
  next
    case (Suc j)
    with Cons.prems(2) have "j < length calls"
      by simp
    from Cons.IH [OF rest this] Suc queries g1 show ?thesis
      by simp
  qed
qed

text \<open>
  C10. Every run of the program starts with the generator in the state that
  \<open>random.seed(1)\<close> sets, and only \<open>build_query\<close> draws from it. So in every run the
  transaction id of the \<open>k\<close>-th query built is the \<open>k\<close>-th number drawn from that state,
  whatever names and types were asked before; two runs agree on the first two bytes of
  their \<open>k\<close>-th queries, and on all the bytes when the \<open>k\<close>-th calls have the same
  domain name and record type. The ids are not fresh per process.
\<close>

theorem build_query_deterministic:
  assumes "build_queries randint (seeded seed) calls1 = Inr (queries1, g1)"
    and "build_queries randint (seeded seed) calls2 = Inr (queries2, g2)"
    and "k < length calls1" and "k < length calls2"
  shows "take 2 (queries1 ! k) =
      [of_nat (unat (nth_draw randint (seed 1) k) div 256),
       of_nat (unat (nth_draw randint (seed 1) k) mod 256)]
    \<and> take 2 (queries2 ! k) = take 2 (queries1 ! k)
    \<and> (calls1 ! k = calls2 ! k \<longrightarrow> queries1 ! k = queries2 ! k)"
  using build_queries_nth [OF assms(1) assms(3)] build_queries_nth [OF assms(2) assms(4)]
  by (auto simp: seeded_def)

section \<open>The model on the stand-ins\<close>

lemma encode_dns_name_a: "encode_dns_name ''a'' = Inr [1, 0x61, 0]"
  by (simp add: encode_dns_name_def encode_ascii_def dot_def)

lemma ip_to_string_examples:
  "ip_to_string [1, 2, 3, 4] = ''1.2.3.4''"
  "ip_to_string [5, 6, 7, 8] = ''5.6.7.8''"
  "ip_to_string [192, 5, 6, 30] = ''192.5.6.30''"
  by code_simp+

lemmas parse_simps = parse_dns_packet_def parse_header_def parse_question_def
  decode_name_simple_def decode_name_simple_loop.simps parse_record_def decode_name_def
  decode_name_loop.simps decode_compressed_name.simps read_def unpack_be_def
  TYPE_A_def TYPE_NS_def TYPE_TXT_def ip_to_string_examples

lemma parse_response_A_answer:
  "parse_dns_packet hops (take 1024 response_A_answer) =
   Some (Inr \<lparr>header = \<lparr>id' = 0, flags = 32768, num_questions = 0, num_answers = 1,
                         num_authorities = 0, num_additionals = 0\<rparr>,
              questions = [],
              answers = [\<lparr>name = [], type' = 1, class' = 1, ttl = 0, data = Str ''1.2.3.4''\<rparr>],
              authorities = [], additionals = []\<rparr>)"
  by (simp add: response_A_answer_def parse_simps)

lemma parse_response_TXT_answer:
  "parse_dns_packet hops (take 1024 response_TXT_answer) =
   Some (Inr \<lparr>header = \<lparr>id' = 0, flags = 32768, num_questions = 0, num_answers = 1,
                         num_authorities = 0, num_additionals = 0\<rparr>,
              questions = [],
              answers = [\<lparr>name = [], type' = 16, class' = 1, ttl = 0, data = Bytes [1, 0x78]\<rparr>],
              authorities = [], additionals = []\<rparr>)"
  by (simp add: response_TXT_answer_def parse_simps)

lemma parse_response_glue:
  "parse_dns_packet hops (take 1024 response_glue) =
   Some (Inr \<lparr>header = \<lparr>id' = 0, flags = 32768, num_questions = 0, num_answers = 0,
                         num_authorities = 0, num_additionals = 1\<rparr>,
              questions = [], answers = [], authorities = [],
              additionals = [\<lparr>name = [], type' = 1, class' = 1, ttl = 0,
                              data = Str ''192.5.6.30''\<rparr>]\<rparr>)"
  by (simp add: response_glue_def parse_simps)

lemma parse_response_A_answer_and_glue:
  "parse_dns_packet hops (take 1024 response_A_answer_and_glue) =
   Some (Inr \<lparr>header = \<lparr>id' = 0, flags = 32768, num_questions = 0, num_answers = 1,
                         num_authorities = 0, num_additionals = 1\<rparr>,
              questions = [],
              answers = [\<lparr>name = [], type' = 1, class' = 1, ttl = 0, data = Str ''1.2.3.4''\<rparr>],
              authorities = [],
              additionals = [\<lparr>name = [], type' = 1, class' = 1, ttl = 0,
                              data = Str ''5.6.7.8''\<rparr>]\<rparr>)"
  by (simp add: response_A_answer_and_glue_def parse_simps)

lemma send_query_a:
  assumes "\<And>n. udp n ip_address DNS_PORT
      ([of_nat (g div 256), of_nat (g mod 256), 0, 0, 0, 1, 0, 0, 0, 0, 0, 0, 1, 0x61, 0,
        of_nat (record_type div 256), of_nat (record_type mod 256), 0, 1]) = Inr (received, n)"
    and "parse_dns_packet hops (take 1024 received) = Some (Inr packet)"
    and "record_type \<le> 65535" and "g \<le> 65535"
  shows "send_query counting_randint udp hops \<lparr>rng = g, net = n\<rparr> ip_address ''a'' record_type
    = Some (Inr (packet, \<lparr>rng = Suc g, net = n\<rparr>))"
  using assms
  by (simp add: send_query_def build_query_eq encode_dns_name_a counting_randint_def unat_of_nat)

lemma send_query_answering:
  assumes "parse_dns_packet hops (take 1024 received) = Some (Inr packet)"
    and "record_type \<le> 65535"
  shows "send_query counting_randint (answering_udp received) hops w ip_address ''a'' record_type
    = Some (Inr (packet, \<lparr>rng = Suc (rng w), net = net w\<rparr>))"
  using assms
  by (simp add: send_query_def build_query_eq encode_dns_name_a counting_randint_def
      answering_udp_def)


lemma send_query_delegating:
  assumes "record_type \<le> 65535"
  shows "send_query counting_randint delegating_udp hops w ip_address ''a'' record_type =
    (case parse_dns_packet hops
            (take 1024 (if ip_address = ''198.41.0.4'' then response_glue else response_A_answer)) of
       None \<Rightarrow> None
     | Some (Inl e) \<Rightarrow> Some (Inl e)
     | Some (Inr packet) \<Rightarrow> Some (Inr (packet, \<lparr>rng = Suc (rng w), net = ()\<rparr>)))"
  using assms
  by (simp add: send_query_def build_query_eq encode_dns_name_a counting_randint_def
      delegating_udp_def)

text \<open>
  C10, witness: two runs with the counting generator. The first calls differ, the second
  calls are the same, and so are the second queries, with the id 2.
\<close>

theorem build_query_deterministic_witness:
  "build_queries counting_randint (seeded nat) [(''a'', 1), (''b'', 1)] =
     Inr ([[0, 1, 0, 0, 0, 1, 0, 0, 0, 0, 0, 0, 1, 97, 0, 0, 1, 0, 1],
           [0, 2, 0, 0, 0, 1, 0, 0, 0, 0, 0, 0, 1, 98, 0, 0, 1, 0, 1]], 3)
   \<and> build_queries counting_randint (seeded nat) [(''c'', 16), (''b'', 1)] =
     Inr ([[0, 1, 0, 0, 0, 1, 0, 0, 0, 0, 0, 0, 1, 99, 0, 0, 16, 0, 1],
           [0, 2, 0, 0, 0, 1, 0, 0, 0, 0, 0, 0, 1, 98, 0, 0, 1, 0, 1]], 3)
   \<and> nth_draw counting_randint (nat 1) 1 = 2"
proof -
  have e1: "build_queries counting_randint (seeded nat) [(''a'', 1), (''b'', 1)] =
     Inr ([[0, 1, 0, 0, 0, 1, 0, 0, 0, 0, 0, 0, 1, 97, 0, 0, 1, 0, 1],
           [0, 2, 0, 0, 0, 1, 0, 0, 0, 0, 0, 0, 1, 98, 0, 0, 1, 0, 1]], 3)"
    by (simp add: seeded_def counting_randint_def build_query_eq
        encode_dns_name_def encode_ascii_def dot_def)
  have e2: "build_queries counting_randint (seeded nat) [(''c'', 16), (''b'', 1)] =
     Inr ([[0, 1, 0, 0, 0, 1, 0, 0, 0, 0, 0, 0, 1, 99, 0, 0, 16, 0, 1],
           [0, 2, 0, 0, 0, 1, 0, 0, 0, 0, 0, 0, 1, 98, 0, 0, 1, 0, 1]], 3)"
    by (simp add: seeded_def counting_randint_def build_query_eq
        encode_dns_name_def encode_ascii_def dot_def)
  have d: "nth_draw counting_randint (nat 1) 1 = 2"
    by (simp add: counting_randint_def)
  from build_query_deterministic [OF e1 e2, of 1] e1 e2 d show ?thesis
    by simp
qed

section \<open>One iteration of the resolver\<close>

lemma first_A_find:
  "first_A rs = map_option (\<lambda>a. str (data a)) (find (\<lambda>a. type' a = TYPE_A) rs)"
  by (induction rs) simp_all

lemma resolve_loop_answer:
  assumes "send_query randint udp hops w nameserver domain_name record_type
             = Some (Inr (response, w1))"
    and "get_answer response = Some ip" and "ip \<noteq> []"
  shows "resolve_loop randint udp hops (Suc fuel) w nameserver domain_name record_type
           = Some (Inr (ip, w1))"
  using assms by simp

lemma resolve_loop_no_answer:
  assumes "send_query randint udp hops w nameserver domain_name record_type
             = Some (Inr (response, w1))"
    and "\<not> truthy (get_answer response)"
  shows "resolve_loop randint udp hops (Suc fuel) w nameserver domain_name record_type =
    (if truthy (get_nameserver_ip response) then
       resolve_loop randint udp hops fuel w1 (the (get_nameserver_ip response))
         domain_name record_type
     else
       (case get_nameserver response of
          Inl e \<Rightarrow> Some (Inl e)
        | Inr ns_domain \<Rightarrow>
            if truthy ns_domain then
              (case resolve randint udp hops fuel w1 (the ns_domain) TYPE_A of
                 None \<Rightarrow> None
               | Some (Inl e) \<Rightarrow> Some (Inl e)
               | Some (Inr (ns_ip, w2)) \<Rightarrow>
                   resolve_loop randint udp hops fuel w2 ns_ip domain_name record_type)
            else Some (Inl SomethingWentWrong)))"
  using assms by (simp add: Let_def)

lemma resolve_loop_one_query_no_answer:
  assumes "send_query randint udp hops w nameserver domain_name record_type
             = Some (Inr (response, w1))"
    and "\<not> truthy (get_answer response)"
  shows "resolve_loop randint udp hops (Suc 0) w nameserver domain_name record_type
           \<noteq> Some (Inr (ip, w'))"
  unfolding resolve_loop_no_answer [OF assms]
  by (auto split: sum.splits)


lemma parse_record_A_data:
  assumes "parse_record hops buf pos = Some (Inr (r, pos'))" and "type' r = TYPE_A"
  shows "\<exists>raw. data r = Str (ip_to_string raw)"
  using assms
  by (auto simp: parse_record_def Let_def TYPE_A_def TYPE_NS_def
      split: option.splits sum.splits prod.splits if_splits)

lemma parse_records_A_data:
  "parse_records hops buf pos n = Some (Inr (rs, pos')) \<Longrightarrow>
   \<forall>r \<in> set rs. type' r = TYPE_A \<longrightarrow> (\<exists>raw. data r = Str (ip_to_string raw))"
proof (induction n arbitrary: pos rs)
  case 0
  then show ?case by simp
next
  case (Suc n)
  from Suc.prems obtain r pos1 rs' where
    r: "parse_record hops buf pos = Some (Inr (r, pos1))"
    and rest: "parse_records hops buf pos1 n = Some (Inr (rs', pos'))" and rs: "rs = r # rs'"
    by (auto split: option.splits sum.splits)
  from parse_record_A_data [OF r] Suc.IH [OF rest] rs show ?case
    by simp
qed

lemma send_query_A_data:
  assumes "send_query randint udp hops w nameserver domain_name record_type
             = Some (Inr (response, w1))"
  shows "\<forall>r \<in> set (answers response). type' r = TYPE_A \<longrightarrow> (\<exists>raw. data r = Str (ip_to_string raw))"
proof -
  from assms obtain received where "parse_dns_packet hops (take 1024 received) = Some (Inr response)"
    by (auto simp: send_query_def split: sum.splits option.splits prod.splits)
  then obtain pos2 pos3 where
    "parse_records hops (take 1024 received) pos2 (num_answers (header response))
       = Some (Inr (answers response, pos3))"
    by (auto simp: parse_dns_packet_def split: sum.splits option.splits prod.splits)
  then show ?thesis
    by (rule parse_records_A_data)
qed

text \<open>
  C3 (as the code has it). \<open>get_answer\<close> looks for a record of type A, whatever record
  type was asked for. For a response whose A records in the answer section have data
  that is not empty, \<open>resolve\<close> returns in this iteration (with one query allowed it
  returns at all) exactly when the answer section holds a record of type A, and the
  value it returns is the data of the first such record, a dotted-decimal text.
\<close>

theorem resolve_returns_first_A_answer:
  assumes q: "send_query randint udp hops w nameserver domain_name record_type
                = Some (Inr (response, w1))"
    and nonempty: "\<forall>a \<in> set (answers response). type' a = TYPE_A \<longrightarrow> str (data a) \<noteq> []"
  shows "((\<exists>ip w'. resolve_loop randint udp hops (Suc 0) w nameserver domain_name record_type
                    = Some (Inr (ip, w')))
          \<longleftrightarrow> (\<exists>a \<in> set (answers response). type' a = TYPE_A))
    \<and> (\<forall>a. find (\<lambda>a. type' a = TYPE_A) (answers response) = Some a \<longrightarrow>
           resolve_loop randint udp hops (Suc fuel) w nameserver domain_name record_type
             = Some (Inr (str (data a), w1))
           \<and> (\<exists>raw. str (data a) = ip_to_string raw))"
proof (cases "find (\<lambda>a. type' a = TYPE_A) (answers response)")
  case None
  then have no_A: "\<not> (\<exists>a \<in> set (answers response). type' a = TYPE_A)"
    by (simp add: find_None_iff)
  from None have "\<not> truthy (get_answer response)"
    by (simp add: get_answer_def first_A_find)
  from resolve_loop_one_query_no_answer [OF q this] no_A None show ?thesis
    by simp
next
  case (Some a)
  then have a: "a \<in> set (answers response)" "type' a = TYPE_A"
    by (auto simp: find_Some_iff)
  with nonempty have ne: "str (data a) \<noteq> []"
    by blast
  from send_query_A_data [OF q] a obtain raw where "data a = Str (ip_to_string raw)"
    by blast
  then have dotted: "\<exists>raw. str (data a) = ip_to_string raw"
    by auto
  from Some have "get_answer response = Some (str (data a))"
    by (simp add: get_answer_def first_A_find)
  from resolve_loop_answer [OF q this ne] a Some dotted show ?thesis
    by auto
qed

text \<open>
  C3, witness: the response with the A answer 1.2.3.4, asked for type A.
\<close>

theorem resolve_returns_first_A_answer_witness:
  "resolve_loop counting_randint (answering_udp response_A_answer) 0 (Suc 0)
     \<lparr>rng = 1, net = ()\<rparr> ''198.41.0.4'' ''a'' TYPE_A
   = Some (Inr (''1.2.3.4'', \<lparr>rng = 2, net = ()\<rparr>))"
proof -
  let ?packet = "\<lparr>header = \<lparr>id' = 0, flags = 32768, num_questions = 0, num_answers = 1,
                         num_authorities = 0, num_additionals = 0\<rparr>,
              questions = [],
              answers = [\<lparr>name = [], type' = 1, class' = 1, ttl = 0, data = Str ''1.2.3.4''\<rparr>],
              authorities = [], additionals = []\<rparr>"
  have q: "send_query counting_randint (answering_udp response_A_answer) 0
      \<lparr>rng = 1, net = ()\<rparr> ''198.41.0.4'' ''a'' TYPE_A
      = Some (Inr (?packet, \<lparr>rng = Suc 1, net = ()\<rparr>))"
    using send_query_answering [OF parse_response_A_answer, of TYPE_A 0 "\<lparr>rng = 1, net = ()\<rparr>"]
    by (simp add: TYPE_A_def)
  have ne: "\<forall>a \<in> set (answers ?packet). type' a = TYPE_A \<longrightarrow> str (data a) \<noteq> []"
    by simp
  from resolve_returns_first_A_answer [OF q ne, of 0] show ?thesis
    by (simp add: TYPE_A_def)
qed

text \<open>
  C3, counterexample to the claim as stated: the record type asked for is TXT and the
  answer section of the response holds a TXT record, a record of the requested type.
  \<open>resolve\<close> does not return its data: it finds no A record, no glue and no nameserver,
  and raises \<open>Exception("something went wrong")\<close>.
\<close>

theorem resolve_ignores_TXT_answer_counterexample:
  "parse_dns_packet 0 (take 1024 response_TXT_answer) =
     Some (Inr \<lparr>header = \<lparr>id' = 0, flags = 32768, num_questions = 0, num_answers = 1,
                           num_authorities = 0, num_additionals = 0\<rparr>,
                questions = [],
                answers = [\<lparr>name = [], type' = TYPE_TXT, class' = 1, ttl = 0,
                            data = Bytes [1, 0x78]\<rparr>],
                authorities = [], additionals = []\<rparr>)
   \<and> resolve counting_randint (answering_udp response_TXT_answer) 0 1
       \<lparr>rng = 1, net = ()\<rparr> ''a'' TYPE_TXT
     = Some (Inl SomethingWentWrong)"
proof -
  have q: "send_query counting_randint (answering_udp response_TXT_answer) 0
      \<lparr>rng = 1, net = ()\<rparr> ''198.41.0.4'' ''a'' TYPE_TXT
      = Some (Inr (\<lparr>header = \<lparr>id' = 0, flags = 32768, num_questions = 0, num_answers = 1,
                           num_authorities = 0, num_additionals = 0\<rparr>,
                questions = [],
                answers = [\<lparr>name = [], type' = 16, class' = 1, ttl = 0,
                            data = Bytes [1, 0x78]\<rparr>],
                authorities = [], additionals = []\<rparr>, \<lparr>rng = Suc 1, net = ()\<rparr>))"
    using send_query_answering [OF parse_response_TXT_answer, of TYPE_TXT 0 "\<lparr>rng = 1, net = ()\<rparr>"]
    by (simp add: TYPE_TXT_def)
  from q show ?thesis
    by (simp add: parse_response_TXT_answer get_answer_def get_nameserver_ip_def
        get_nameserver_def TYPE_A_def TYPE_TXT_def)
qed




text \<open>
  C5 (as the code has it). For a response with no A record in its answer section and
  whose A records in the additional section have data that is not empty: when the
  additional section holds an A record, the next iteration runs with the data of the
  first one as nameserver and from the world as the one query left it, so no other query
  was sent in between; only when the additional section holds no A record does
  \<open>resolve\<close> look for an NS record in the authority section and resolve its name.
\<close>

theorem resolve_glue_before_name:
  assumes q: "send_query randint udp hops w nameserver domain_name record_type
                = Some (Inr (response, w1))"
    and no_answer: "\<forall>a \<in> set (answers response). type' a \<noteq> TYPE_A"
    and nonempty: "\<forall>a \<in> set (additionals response). type' a = TYPE_A \<longrightarrow> str (data a) \<noteq> []"
  shows "resolve_loop randint udp hops (Suc fuel) w nameserver domain_name record_type =
    (case find (\<lambda>a. type' a = TYPE_A) (additionals response) of
       Some a \<Rightarrow>
         resolve_loop randint udp hops fuel w1 (str (data a)) domain_name record_type
     | None \<Rightarrow>
         (case get_nameserver response of
            Inl e \<Rightarrow> Some (Inl e)
          | Inr ns_domain \<Rightarrow>
              if truthy ns_domain then
                (case resolve randint udp hops fuel w1 (the ns_domain) TYPE_A of
                   None \<Rightarrow> None
                 | Some (Inl e) \<Rightarrow> Some (Inl e)
                 | Some (Inr (ns_ip, w2)) \<Rightarrow>
                     resolve_loop randint udp hops fuel w2 ns_ip domain_name record_type)
              else Some (Inl SomethingWentWrong)))"
proof -
  from no_answer have "find (\<lambda>a. type' a = TYPE_A) (answers response) = None"
    by (simp add: find_None_iff)
  then have na: "\<not> truthy (get_answer response)"
    by (simp add: get_answer_def first_A_find)
  show ?thesis
  proof (cases "find (\<lambda>a. type' a = TYPE_A) (additionals response)")
    case None
    then have "\<not> truthy (get_nameserver_ip response)"
      by (simp add: get_nameserver_ip_def first_A_find)
    with None show ?thesis
      unfolding resolve_loop_no_answer [OF q na] by simp
  next
    case (Some a)
    then have "a \<in> set (additionals response)" "type' a = TYPE_A"
      by (auto simp: find_Some_iff)
    with nonempty have "str (data a) \<noteq> []"
      by blast
    with Some have "truthy (get_nameserver_ip response)"
      "the (get_nameserver_ip response) = str (data a)"
      by (simp_all add: get_nameserver_ip_def first_A_find)
    with Some show ?thesis
      unfolding resolve_loop_no_answer [OF q na] by simp
  qed
qed

text \<open>
  C5, witness: the root server answers with the glue 192.5.6.30, which answers with the
  address. Two queries are sent, as the generator shows: it has drawn twice.
\<close>

theorem resolve_glue_before_name_witness:
  "resolve counting_randint delegating_udp 0 2 \<lparr>rng = 1, net = ()\<rparr> ''a'' TYPE_A
   = Some (Inr (''1.2.3.4'', \<lparr>rng = 3, net = ()\<rparr>))"
proof -
  let ?glue = "\<lparr>header = \<lparr>id' = 0, flags = 32768, num_questions = 0, num_answers = 0,
                         num_authorities = 0, num_additionals = 1\<rparr>,
              questions = [], answers = [], authorities = [],
              additionals = [\<lparr>name = [], type' = 1, class' = 1, ttl = 0,
                              data = Str ''192.5.6.30''\<rparr>]\<rparr>"
  have q: "send_query counting_randint delegating_udp 0 \<lparr>rng = 1, net = ()\<rparr>
      ''198.41.0.4'' ''a'' TYPE_A = Some (Inr (?glue, \<lparr>rng = 2, net = ()\<rparr>))"
    by (simp add: send_query_delegating parse_response_glue TYPE_A_def)
  have a: "\<forall>a \<in> set (answers ?glue). type' a \<noteq> TYPE_A"
    by simp
  have c: "\<forall>a \<in> set (additionals ?glue). type' a = TYPE_A \<longrightarrow> str (data a) \<noteq> []"
    by simp
  have step: "resolve_loop counting_randint delegating_udp 0 (Suc (Suc 0)) \<lparr>rng = 1, net = ()\<rparr>
      ''198.41.0.4'' ''a'' TYPE_A
    = resolve_loop counting_randint delegating_udp 0 (Suc 0) \<lparr>rng = 2, net = ()\<rparr>
        ''192.5.6.30'' ''a'' TYPE_A"
    using resolve_glue_before_name [OF q a c, of "Suc 0"] by (simp add: TYPE_A_def)
  have q2: "send_query counting_randint delegating_udp 0 \<lparr>rng = 2, net = ()\<rparr>
      ''192.5.6.30'' ''a'' TYPE_A
    = Some (Inr (\<lparr>header = \<lparr>id' = 0, flags = 32768, num_questions = 0, num_answers = 1,
                         num_authorities = 0, num_additionals = 0\<rparr>,
              questions = [],
              answers = [\<lparr>name = [], type' = 1, class' = 1, ttl = 0, data = Str ''1.2.3.4''\<rparr>],
              authorities = [], additionals = []\<rparr>, \<lparr>rng = 3, net = ()\<rparr>))"
    by (simp add: send_query_delegating parse_response_A_answer TYPE_A_def)
  have "resolve_loop counting_randint delegating_udp 0 (Suc 0) \<lparr>rng = 2, net = ()\<rparr>
        ''192.5.6.30'' ''a'' TYPE_A = Some (Inr (''1.2.3.4'', \<lparr>rng = 3, net = ()\<rparr>))"
    by (rule resolve_loop_answer [OF q2]) (simp_all add: get_answer_def TYPE_A_def)
  with step show ?thesis
    by (simp add: numeral_2_eq_2)
qed

text \<open>
  C5, counterexample to the claim as stated: the record type asked for is TXT, the
  answer section holds no TXT record (it holds an A record) and the additional section
  holds an A record. \<open>resolve\<close> does not go on to the nameserver 5.6.7.8: it returns the
  address 1.2.3.4 of the answer section as the result.
\<close>

theorem resolve_returns_A_for_TXT_counterexample:
  "parse_dns_packet 0 (take 1024 response_A_answer_and_glue) =
     Some (Inr \<lparr>header = \<lparr>id' = 0, flags = 32768, num_questions = 0, num_answers = 1,
                           num_authorities = 0, num_additionals = 1\<rparr>,
                questions = [],
                answers = [\<lparr>name = [], type' = TYPE_A, class' = 1, ttl = 0,
                            data = Str ''1.2.3.4''\<rparr>],
                authorities = [],
                additionals = [\<lparr>name = [], type' = TYPE_A, class' = 1, ttl = 0,
                                data = Str ''5.6.7.8''\<rparr>]\<rparr>)
   \<and> resolve counting_randint (answering_udp response_A_answer_and_glue) 0 1
       \<lparr>rng = 1, net = ()\<rparr> ''a'' TYPE_TXT
     = Some (Inr (''1.2.3.4'', \<lparr>rng = 2, net = ()\<rparr>))"
proof -
  have q: "send_query counting_randint (answering_udp response_A_answer_and_glue) 0
      \<lparr>rng = 1, net = ()\<rparr> ''198.41.0.4'' ''a'' TYPE_TXT
      = Some (Inr (\<lparr>header = \<lparr>id' = 0, flags = 32768, num_questions = 0, num_answers = 1,
                           num_authorities = 0, num_additionals = 1\<rparr>,
                questions = [],
                answers = [\<lparr>name = [], type' = 1, class' = 1, ttl = 0,
                            data = Str ''1.2.3.4''\<rparr>],
                authorities = [],
                additionals = [\<lparr>name = [], type' = 1, class' = 1, ttl = 0,
                                data = Str ''5.6.7.8''\<rparr>]\<rparr>, \<lparr>rng = Suc 1, net = ()\<rparr>))"
    using send_query_answering [OF parse_response_A_answer_and_glue, of TYPE_TXT 0
        "\<lparr>rng = 1, net = ()\<rparr>"]
    by (simp add: TYPE_TXT_def)
  from q show ?thesis
    by (simp add: parse_response_A_answer_and_glue get_answer_def TYPE_A_def TYPE_TXT_def)
qed

end
